theory Spec2Isabelle
  imports Complex_Main
begin

section \<open>Battery statistics: the timeline and trend engine of battery-stat.py\<close>

text \<open>
  The script is embedded function by function. Python's \<open>int\<close> is \<open>int\<close>; Python's
  \<open>float\<close> is \<open>real\<close>, so the rounding of float arithmetic is not part of the model
  (the timestamps are whole seconds and \<open>MAX_GAP\<close> is the whole number 720, on which
  float arithmetic is exact); the rounding of a \<open>timedelta\<close> to whole microseconds is.
  Every exception the modelled lines can raise is a value of \<open>py_error\<close>, returned as
  \<open>Inl\<close>.
\<close>

datatype py_error = IndexError | ValueError | ZeroDivisionError | OverflowError

subsection \<open>Constants\<close>

definition BATTERY_MAX_CHARGE :: real where
  "BATTERY_MAX_CHARGE = 85"

text \<open>\<open>AN_HOUR.total_seconds()\<close> for \<open>AN_HOUR = timedelta(hours=1)\<close>.\<close>

definition AN_HOUR_total_seconds :: real where
  "AN_HOUR_total_seconds = 3600"

definition MAX_GAP :: real where
  "MAX_GAP = 0.2 * AN_HOUR_total_seconds"

subsection \<open>Compressed timeline\<close>

text \<open>
  One iteration of the loop body at index \<open>idx\<close>:
  \<^verbatim>\<open>
    delta = timeline_zipped[idx] - timeline_zipped[idx - 1]
    if delta > MAX_GAP:
        timeline_zipped[:idx] = [
            timestamp + delta - MAX_GAP
            for timestamp in timeline_zipped[:idx]
        ]
  \<close>
  The slice assignment replaces the first \<open>idx\<close> elements by as many new ones. The
  source reads the global \<open>MAX_GAP\<close>; the loop is embedded with the threshold as its
  first argument and \<open>timeline_zipped\<close> is its instance at \<open>MAX_GAP\<close>. The loop runs
  \<open>idx\<close> over \<open>range(1, len(timeline_zipped))\<close>, so both reads are in range.
\<close>

definition zip_step :: "real \<Rightarrow> real list \<Rightarrow> nat \<Rightarrow> real list" where
  "zip_step gap tz idx =
     (let delta = tz ! idx - tz ! (idx - 1)
      in if delta > gap
         then map (\<lambda>timestamp. timestamp + delta - gap) (take idx tz) @ drop idx tz
         else tz)"

definition zip_loop :: "real \<Rightarrow> real list \<Rightarrow> real list" where
  "zip_loop gap timeline = foldl (zip_step gap) timeline [1 ..< length timeline]"

definition timeline_zipped :: "real list \<Rightarrow> real list" where
  "timeline_zipped timeline = zip_loop MAX_GAP timeline"

subsection \<open>Python values and indexing\<close>

text \<open>
  A row of the data sheet is a Python list whose elements are ints, floats or strings;
  a float is finite (\<open>CFloat\<close>), an infinity (\<open>CFloatInf\<close>, \<open>True\<close> for the negative
  one) or a nan. The modelled lines compare cells with string literals only: \<open>==\<close> and
  \<open>!=\<close> between a number and a string are defined in Python (they are not equal),
  which is equality of cells here.
\<close>

datatype cell = CInt int | CFloat real | CFloatInf bool | CFloatNan | CStr string

text \<open>\<open>isinstance(c, float)\<close>.\<close>

fun is_float :: "cell \<Rightarrow> bool" where
  "is_float (CFloat r) = True"
| "is_float (CFloatInf negative) = True"
| "is_float CFloatNan = True"
| "is_float (CInt i) = False"
| "is_float (CStr s) = False"

text \<open>\<open>xs[i]\<close> for a literal \<open>i \<ge> 0\<close>, and \<open>xs[-1]\<close>.\<close>

definition index :: "'a list \<Rightarrow> nat \<Rightarrow> py_error + 'a" where
  "index xs i = (if i < length xs then Inr (xs ! i) else Inl IndexError)"

definition index_last :: "'a list \<Rightarrow> py_error + 'a" where
  "index_last xs = (if xs = [] then Inl IndexError else Inr (last xs))"

subsection \<open>Prepare data\<close>

text \<open>
  \<open>data.splitlines()\<close>: a line ends at LF, CR, CR LF, VT, FF, FS, GS, RS or NEL, and
  no empty line is reported after the final line end. Characters are the code points
  below 256.
\<close>

definition line_boundary :: "char \<Rightarrow> bool" where
  "line_boundary c \<longleftrightarrow>
     c \<in> {CHR 0x0A, CHR 0x0D, CHR 0x0B, CHR 0x0C, CHR 0x1C, CHR 0x1D, CHR 0x1E, CHR 0x85}"

fun splitlines_from :: "string \<Rightarrow> string \<Rightarrow> string list" where
  "splitlines_from cur [] = (if cur = [] then [] else [cur])"
| "splitlines_from cur [c] =
     (if line_boundary c then [cur] else [cur @ [c]])"
| "splitlines_from cur (c # d # cs) =
     (if c = CHR 0x0D \<and> d = CHR 0x0A then cur # splitlines_from [] cs
      else if line_boundary c then cur # splitlines_from [] (d # cs)
      else splitlines_from (cur @ [c]) (d # cs))"

definition splitlines :: "string \<Rightarrow> string list" where
  "splitlines data = splitlines_from [] data"

text \<open>\<open>line.split('\t')\<close>: every tab separates, empty fields are kept.\<close>

fun split_from :: "string \<Rightarrow> string \<Rightarrow> string list" where
  "split_from cur [] = [cur]"
| "split_from cur (c # cs) =
     (if c = CHR 0x09 then cur # split_from [] cs else split_from (cur @ [c]) cs)"

definition split_tab :: "string \<Rightarrow> string list" where
  "split_tab line = split_from [] line"

text \<open>
  The builtins \<open>int\<close> and \<open>float\<close> are arguments \<open>py_int\<close> and \<open>py_float\<close> of the
  embedding: each answers a number (\<open>float\<close> a float cell) or raises. One row of
  \<^verbatim>\<open>
    [ int(line[0]), float(line[1]) ] for line in data_sheet
  \<close>
  is evaluated left to right; the new row has exactly these two elements.
\<close>

definition convert_line ::
  "(string \<Rightarrow> py_error + int) \<Rightarrow> (string \<Rightarrow> py_error + cell) \<Rightarrow> string list
     \<Rightarrow> py_error + cell list" where
  "convert_line py_int py_float line =
     (case index line 0 of Inl e \<Rightarrow> Inl e | Inr f0 \<Rightarrow>
      case py_int f0 of Inl e \<Rightarrow> Inl e | Inr unix_time \<Rightarrow>
      case index line 1 of Inl e \<Rightarrow> Inl e | Inr f1 \<Rightarrow>
      case py_float f1 of Inl e \<Rightarrow> Inl e | Inr charge \<Rightarrow>
      Inr [CInt unix_time, charge])"

fun convert_lines ::
  "(string \<Rightarrow> py_error + int) \<Rightarrow> (string \<Rightarrow> py_error + cell) \<Rightarrow> string list list
     \<Rightarrow> py_error + cell list list" where
  "convert_lines py_int py_float [] = Inr []"
| "convert_lines py_int py_float (line # rest) =
     (case convert_line py_int py_float line of Inl e \<Rightarrow> Inl e | Inr row \<Rightarrow>
      case convert_lines py_int py_float rest of Inl e \<Rightarrow> Inl e | Inr rows \<Rightarrow>
      Inr (row # rows))"

text \<open>
  \<^verbatim>\<open>
    # Remove 'unknown' status
    data_sheet = [ line for line in data_sheet if line[2] != 'unknown' ]
  \<close>
\<close>

fun remove_unknown :: "cell list list \<Rightarrow> py_error + cell list list" where
  "remove_unknown [] = Inr []"
| "remove_unknown (line # rest) =
     (case index line 2 of Inl e \<Rightarrow> Inl e | Inr status \<Rightarrow>
      case remove_unknown rest of Inl e \<Rightarrow> Inl e | Inr kept \<Rightarrow>
      Inr (if status \<noteq> CStr ''unknown'' then line # kept else kept))"

text \<open>
  \<open>timeline, charge_data = tuple(zip(*data_sheet))[:2]\<close>: \<open>zip\<close> transposes the rows
  and stops at the shortest one, the slice keeps at most two columns, and unpacking into
  two names raises ValueError unless there are exactly two.
\<close>

definition two_columns :: "cell list list \<Rightarrow> py_error + cell list \<times> cell list" where
  "two_columns rows =
     (if rows = [] \<or> list_ex (\<lambda>row. length row < 2) rows then Inl ValueError
      else Inr (map (\<lambda>row. row ! 0) rows, map (\<lambda>row. row ! 1) rows))"

text \<open>
  The block from the file's text to the globals \<open>data_sheet\<close>, \<open>timeline\<close>,
  \<open>charge_data\<close> and \<open>current_charge\<close> (lines 71 to 82).
\<close>

type_synonym prepared = "cell list list \<times> cell list \<times> cell list \<times> cell"

definition prepare_data_with ::
  "(string \<Rightarrow> py_error + int) \<Rightarrow> (string \<Rightarrow> py_error + cell) \<Rightarrow> string
     \<Rightarrow> py_error + prepared" where
  "prepare_data_with py_int py_float data =
     (case convert_lines py_int py_float (map split_tab (splitlines data)) of
        Inl e \<Rightarrow> Inl e | Inr converted \<Rightarrow>
      case remove_unknown converted of Inl e \<Rightarrow> Inl e | Inr data_sheet \<Rightarrow>
      case two_columns data_sheet of Inl e \<Rightarrow> Inl e | Inr (timeline, charge_data) \<Rightarrow>
      case index_last charge_data of Inl e \<Rightarrow> Inl e | Inr current_charge \<Rightarrow>
      Inr (data_sheet, timeline, charge_data, current_charge))"

text \<open>
  \<open>int(s)\<close> and \<open>float(s)\<close> on strings of code points below 256. Both drop the blanks
  around the number (tab, LF, VT, FF, CR, space, NEL and the no-break space) and read an
  optional sign; digits may be grouped by single underscores:
  \<^verbatim>\<open>
    digitpart   ::= digit (["_"] digit)*
    number      ::= [digitpart] "." digitpart | digitpart ["."]
    floatnumber ::= number [("e" | "E") ["+" | "-"] digitpart]
  \<close>
  \<open>int\<close> accepts a digitpart, \<open>float\<close> a floatnumber or, in any case of the letters,
  \<open>inf\<close>, \<open>infinity\<close> and \<open>nan\<close>. The value of a floatnumber is its decimal value;
  the limit that newer Python versions put on the number of digits of an \<open>int\<close> is not
  modelled.
\<close>

definition is_space :: "char \<Rightarrow> bool" where
  "is_space c \<longleftrightarrow> (of_char c :: nat) \<in> {9, 10, 11, 12, 13, 32, 133, 160}"

definition strip :: "string \<Rightarrow> string" where
  "strip s = rev (dropWhile is_space (rev (dropWhile is_space s)))"

definition is_digit :: "char \<Rightarrow> bool" where
  "is_digit c \<longleftrightarrow> (48::nat) \<le> of_char c \<and> (of_char c :: nat) \<le> 57"

fun digitpart :: "string \<Rightarrow> bool" where
  "digitpart [] = False"
| "digitpart [c] = is_digit c"
| "digitpart (c # d # cs) =
     (is_digit c \<and> (if d = CHR ''_'' then digitpart cs else digitpart (d # cs)))"

definition digits_value :: "string \<Rightarrow> int" where
  "digits_value ds = foldl (\<lambda>n c. 10 * n + (of_char c - 48)) 0 (filter is_digit ds)"

definition split_sign :: "string \<Rightarrow> int \<times> string" where
  "split_sign s =
     (case s of
        [] \<Rightarrow> (1, [])
      | c # cs \<Rightarrow>
          if c = CHR ''-'' then (- 1, cs) else if c = CHR ''+'' then (1, cs) else (1, s))"

definition dec_int :: "string \<Rightarrow> py_error + int" where
  "dec_int s =
     (case split_sign (strip s) of
        (sign, body) \<Rightarrow>
          if digitpart body then Inr (sign * digits_value body) else Inl ValueError)"

definition lower :: "char \<Rightarrow> char" where
  "lower c =
     (if (65::nat) \<le> of_char c \<and> (of_char c :: nat) \<le> 90
      then char_of (of_char c + (32::nat)) else c)"

definition power_of_ten :: "int \<Rightarrow> real" where
  "power_of_ten n = (if 0 \<le> n then 10 ^ nat n else 1 / 10 ^ nat (- n))"

definition floatnumber :: "string \<Rightarrow> real option" where
  "floatnumber s =
     (let mantissa = takeWhile (\<lambda>c. c \<noteq> CHR ''e'' \<and> c \<noteq> CHR ''E'') s;
          exponent = drop (length mantissa) s;
          whole = takeWhile (\<lambda>c. c \<noteq> CHR ''.'') mantissa;
          point = drop (length whole) mantissa;
          frac = drop 1 point;
          number_ok =
            (if point = [] then digitpart whole
             else (whole = [] \<or> digitpart whole) \<and> (frac = [] \<or> digitpart frac) \<and>
                  whole @ frac \<noteq> []);
          exponent_ok = (exponent = [] \<or> digitpart (snd (split_sign (drop 1 exponent))));
          e = (case split_sign (drop 1 exponent) of (sign, ds) \<Rightarrow> sign * digits_value ds)
      in if number_ok \<and> exponent_ok
         then Some ((real_of_int (digits_value whole) +
                     real_of_int (digits_value frac) / 10 ^ length (filter is_digit frac))
                    * power_of_ten e)
         else None)"

definition dec_float :: "string \<Rightarrow> py_error + cell" where
  "dec_float s =
     (case split_sign (strip s) of
        (sign, body) \<Rightarrow>
          if map lower body = ''inf'' \<or> map lower body = ''infinity''
            then Inr (CFloatInf (sign < 0))
          else if map lower body = ''nan'' then Inr CFloatNan
          else (case floatnumber body of
                  None \<Rightarrow> Inl ValueError
                | Some r \<Rightarrow> Inr (CFloat (real_of_int sign * r))))"

definition prepare_data :: "string \<Rightarrow> py_error + prepared" where
  "prepare_data data = prepare_data_with dec_int dec_float data"

subsection \<open>The globals the plot reads\<close>

text \<open>
  \<open>BatteryStat\<close> reads the module's globals. Their numbers (int timestamps, float
  charges) are reals here; \<open>env_clock\<close> is the answer of \<open>timestamp_now()\<close>.
\<close>

record env =
  env_data_sheet :: "cell list list"
  env_timeline :: "real list"
  env_charge_data :: "real list"
  env_current_charge :: real
  env_timeline_zipped :: "real list"
  env_clock :: real

text \<open>The attributes of \<open>self\<close>, and the \<open>val\<close> of the two sliders.\<close>

record battery_stat =
  compress :: bool
  relative :: bool
  plot_range :: "real \<times> real"
  self_timeline :: "real list"
  self_charge_data :: "real list"


subsection \<open>\<open>BatteryStat.format\<close>\<close>

text \<open>
  \<open>timedelta(hours=hours).total_seconds()\<close>. A \<open>timedelta\<close> holds whole microseconds:
  its constructor rounds the duration to the nearest microsecond, a tie to the even one
  (Python's \<open>round\<close>), and \<open>total_seconds\<close> divides the microseconds by \<open>10**6\<close>.
\<close>

definition round_half_even :: "real \<Rightarrow> int" where
  "round_half_even x =
     (let f = \<lfloor>x\<rfloor>;
          r = x - real_of_int f
      in if r < 1 / 2 then f
         else if 1 / 2 < r then f + 1
         else if even f then f else f + 1)"

definition timedelta_microseconds :: "real \<Rightarrow> int" where
  "timedelta_microseconds hours = round_half_even (hours * 3600 * 1000000)"

definition hours_total_seconds :: "real \<Rightarrow> real" where
  "hours_total_seconds hours = real_of_int (timedelta_microseconds hours) / 1000000"

text \<open>
  A \<open>timedelta\<close> reaches from -999999999 days to just below 1000000000 days; beyond,
  the constructor raises OverflowError.
\<close>

definition timedelta_total_seconds :: "real \<Rightarrow> py_error + real" where
  "timedelta_total_seconds hours =
     (if - 86399999913600000000 \<le> timedelta_microseconds hours \<and>
         timedelta_microseconds hours \<le> 86399999999999999999
      then Inr (hours_total_seconds hours) else Inl OverflowError)"

text \<open>
  \<^verbatim>\<open>
    if self.compress:
        timeline_local = timeline_zipped
        now = timeline_local[-1]
    else:
        timeline_local = timeline
        now = timestamp_now()
  \<close>
\<close>

definition timeline_local_now :: "env \<Rightarrow> battery_stat \<Rightarrow> py_error + real list \<times> real" where
  "timeline_local_now e self =
     (if compress self
      then (case index_last (env_timeline_zipped e) of
              Inl err \<Rightarrow> Inl err
            | Inr now \<Rightarrow> Inr (env_timeline_zipped e, now))
      else Inr (env_timeline e, env_clock e))"



subsection \<open>\<open>BatteryStat.analyze\<close>\<close>

text \<open>
  What \<open>analyze\<close> puts in the title: the placeholder, or rate, life, full life and the
  optional remaining time (\<open>left\<close>).
\<close>

datatype trend_result = NoTrend | Trend real real real "real option"

text \<open>
  \<open>all(x <= y for x, y in zip(charge_data, charge_data[1:]))\<close> and its mirror image.
\<close>

definition nondecreasing :: "real list \<Rightarrow> bool" where
  "nondecreasing charge_data = list_all (\<lambda>(x, y). x \<le> y) (zip charge_data (tl charge_data))"

definition nonincreasing :: "real list \<Rightarrow> bool" where
  "nonincreasing charge_data = list_all (\<lambda>(x, y). x \<ge> y) (zip charge_data (tl charge_data))"

text \<open>
  \<open>status = data_sheet[-1][-1]\<close>, then the \<open>if\<close>/\<open>elif\<close>/\<open>else\<close> for \<open>left\<close>.
\<close>

definition remaining :: "cell \<Rightarrow> real \<Rightarrow> real \<Rightarrow> real option" where
  "remaining status current_charge rate =
     (if status = CStr ''discharging'' then Some (current_charge / \<bar>rate\<bar>)
      else if status = CStr ''charging''
        then Some ((BATTERY_MAX_CHARGE - current_charge) / \<bar>rate\<bar>)
      else None)"

text \<open>
  The body of \<open>analyze\<close> on the selected columns. Float division by zero raises
  ZeroDivisionError; \<open>timeline[-1]\<close> and \<open>timeline[0]\<close> are read only when
  \<open>len(timeline) > 2\<close>.
\<close>

definition analyze ::
  "real list \<Rightarrow> real list \<Rightarrow> cell list list \<Rightarrow> real \<Rightarrow> py_error + trend_result" where
  "analyze timeline charge_data data_sheet current_charge =
     (if length timeline \<le> 2 \<or> (\<not> nondecreasing charge_data \<and> \<not> nonincreasing charge_data)
      then Inr NoTrend
      else
        let t_range = (last timeline - hd timeline) / AN_HOUR_total_seconds
        in if charge_data = [] then Inl IndexError
           else if t_range = 0 then Inl ZeroDivisionError
           else
             let rate = (last charge_data - hd charge_data) / t_range
             in if \<bar>rate\<bar> = 0 then Inl ZeroDivisionError
                else
                  let life = BATTERY_MAX_CHARGE / \<bar>rate\<bar>;
                      full_life = 100 / \<bar>rate\<bar>
                  in case index_last data_sheet of
                       Inl err \<Rightarrow> Inl err
                     | Inr row \<Rightarrow>
                         (case index_last row of
                            Inl err \<Rightarrow> Inl err
                          | Inr status \<Rightarrow>
                              Inr (Trend rate life full_life
                                    (remaining status current_charge rate))))"


subsection \<open>\<open>BatteryStat.update\<close>\<close>





subsection \<open>The loop invariant of the compression\<close>

text \<open>
  After the iterations \<open>1, \<dots>, k\<close> the list \<open>r\<close> has the length of the input, agrees
  with it from index \<open>k\<close> on, and every gap below index \<open>k\<close> is the input's gap cut
  down to the threshold.
\<close>

definition zip_inv :: "real \<Rightarrow> real list \<Rightarrow> nat \<Rightarrow> real list \<Rightarrow> bool" where
  "zip_inv gap timeline k r \<longleftrightarrow>
     length r = length timeline \<and>
     (\<forall>i. k \<le> i \<and> i < length timeline \<longrightarrow> r ! i = timeline ! i) \<and>
     (\<forall>i < k. r ! Suc i - r ! i = min (timeline ! Suc i - timeline ! i) gap)"

section \<open>Properties of the conversion of hours\<close>

text \<open>Unfolding these evaluates \<open>hours_total_seconds\<close> at a number.\<close>

lemmas hts_eval =
  timedelta_total_seconds_def hours_total_seconds_def timedelta_microseconds_def
  round_half_even_def Let_def








section \<open>Properties of the compressed timeline\<close>

lemma length_zip_step: "length (zip_step gap tz idx) = length tz"
  by (auto simp: zip_step_def Let_def)

lemma nth_zip_step:
  assumes "i < length tz"
  shows "zip_step gap tz idx ! i =
           (if gap < tz ! idx - tz ! (idx - 1) \<and> i < idx
            then tz ! i + (tz ! idx - tz ! (idx - 1)) - gap else tz ! i)"
  using assms by (auto simp: zip_step_def Let_def nth_append)

lemma zip_inv_step:
  assumes inv: "zip_inv gap timeline k r" and k: "Suc k < length timeline"
  shows "zip_inv gap timeline (Suc k) (zip_step gap r (Suc k))"
proof -
  from inv have len: "length r = length timeline"
    and same: "\<And>i. k \<le> i \<Longrightarrow> i < length timeline \<Longrightarrow> r ! i = timeline ! i"
    and gaps: "\<And>i. i < k \<Longrightarrow> r ! Suc i - r ! i = min (timeline ! Suc i - timeline ! i) gap"
    by (auto simp: zip_inv_def)
  let ?r' = "zip_step gap r (Suc k)"
  have rk: "r ! k = timeline ! k" and rSk: "r ! Suc k = timeline ! Suc k"
    using same k by auto
  have nth': "\<And>i. i < length timeline \<Longrightarrow> ?r' ! i =
      (if gap < timeline ! Suc k - timeline ! k \<and> i < Suc k
       then r ! i + (timeline ! Suc k - timeline ! k) - gap else r ! i)"
    using nth_zip_step [of _ r gap "Suc k"] len rk rSk by simp
  have 1: "length ?r' = length timeline"
    by (simp add: length_zip_step len)
  have 2: "?r' ! i = timeline ! i" if "Suc k \<le> i" "i < length timeline" for i
    using that nth' [of i] same [of i] by simp
  have 3: "?r' ! Suc i - ?r' ! i = min (timeline ! Suc i - timeline ! i) gap"
    if "i < Suc k" for i
  proof (cases "i < k")
    case True
    then have "Suc i < length timeline" "i < length timeline" using k by auto
    then show ?thesis using nth' [of i] nth' [of "Suc i"] gaps [OF True] True by simp
  next
    case False
    then have ik: "i = k" using that by simp
    show ?thesis using nth' [of k] nth' [of "Suc k"] k rk rSk by (simp add: ik min_def)
  qed
  show ?thesis unfolding zip_inv_def using 1 2 3 by blast
qed

lemma zip_inv_prefix:
  "k < length timeline \<Longrightarrow>
   zip_inv gap timeline k (foldl (zip_step gap) timeline [1 ..< Suc k])"
proof (induction k)
  case 0
  show ?case by (simp add: zip_inv_def)
next
  case (Suc k)
  then have "zip_inv gap timeline k (foldl (zip_step gap) timeline [1 ..< Suc k])" by simp
  from zip_inv_step [OF this Suc.prems] show ?case by simp
qed

lemma zip_inv_loop:
  assumes "timeline \<noteq> []"
  shows "zip_inv gap timeline (length timeline - 1) (zip_loop gap timeline)"
proof -
  from assms obtain n where n: "length timeline = Suc n" by (cases timeline) auto
  then show ?thesis using zip_inv_prefix [of n timeline gap] by (simp add: zip_loop_def)
qed

lemma length_zip_loop: "length (zip_loop gap timeline) = length timeline"
proof (cases "timeline = []")
  case True
  then show ?thesis by (simp add: zip_loop_def)
next
  case False
  from zip_inv_loop [OF this] show ?thesis by (simp add: zip_inv_def)
qed

lemma last_zip_loop:
  assumes "timeline \<noteq> []"
  shows "last (zip_loop gap timeline) = last timeline"
proof -
  have ne: "zip_loop gap timeline \<noteq> []"
    using assms length_zip_loop [of gap timeline] by auto
  have "zip_loop gap timeline ! (length timeline - 1) = timeline ! (length timeline - 1)"
    using zip_inv_loop [OF assms, of gap] assms by (simp add: zip_inv_def)
  then show ?thesis
    using assms ne by (simp add: last_conv_nth length_zip_loop)
qed

lemma gaps_zip_loop:
  "Suc i < length timeline \<Longrightarrow>
   zip_loop gap timeline ! Suc i - zip_loop gap timeline ! i =
     min (timeline ! Suc i - timeline ! i) gap"
  using zip_inv_loop [of timeline gap] by (cases "timeline = []") (auto simp: zip_inv_def)

lemma sorted_zip_loop:
  assumes "sorted timeline" "0 \<le> gap"
  shows "sorted (zip_loop gap timeline)"
proof -
  have "zip_loop gap timeline ! i \<le> zip_loop gap timeline ! Suc i"
    if "Suc i < length timeline" for i
  proof -
    have "timeline ! i \<le> timeline ! Suc i"
      using assms(1) that by (simp add: sorted_iff_nth_Suc)
    then show ?thesis
      using gaps_zip_loop [OF that, of gap] assms(2) by (simp add: min_def split: if_splits)
  qed
  then show ?thesis by (simp add: sorted_iff_nth_Suc length_zip_loop)
qed

lemma zip_loop_fixed:
  assumes "\<And>i. Suc i < length timeline \<Longrightarrow> timeline ! Suc i - timeline ! i \<le> gap"
  shows "zip_loop gap timeline = timeline"
proof -
  have "k < length timeline \<Longrightarrow> foldl (zip_step gap) timeline [1 ..< Suc k] = timeline" for k
  proof (induction k)
    case 0
    show ?case by simp
  next
    case (Suc k)
    then have "foldl (zip_step gap) timeline [1 ..< Suc k] = timeline" by simp
    moreover have "zip_step gap timeline (Suc k) = timeline"
      using assms [OF Suc.prems] by (simp add: zip_step_def)
    ultimately show ?case by simp
  qed
  then show ?thesis by (cases timeline) (auto simp: zip_loop_def)
qed

lemma zip_loop_idem: "zip_loop gap (zip_loop gap timeline) = zip_loop gap timeline"
proof (rule zip_loop_fixed)
  fix i assume "Suc i < length (zip_loop gap timeline)"
  then have "Suc i < length timeline" by (simp add: length_zip_loop)
  from gaps_zip_loop [OF this, of gap]
  show "zip_loop gap timeline ! Suc i - zip_loop gap timeline ! i \<le> gap" by simp
qed

text \<open>
  Two lists of one length with the same last element and the same gaps are equal.
\<close>

lemma eq_from_gaps:
  fixes a b :: "real list"
  assumes len: "length a = length b" and ne: "a \<noteq> []" and lst: "last a = last b"
    and gaps: "\<And>i. Suc i < length a \<Longrightarrow> a ! Suc i - a ! i = b ! Suc i - b ! i"
  shows "a = b"
proof -
  obtain n where n: "length a = Suc n" using ne by (cases a) auto
  have nb: "b \<noteq> []" using ne len by auto
  have "length a - 1 = n" "length b - 1 = n" using n len by simp_all
  then have "last a = a ! n" "last b = b ! n"
    using ne nb by (simp_all add: last_conv_nth)
  then have top: "a ! n = b ! n" using lst by simp
  have down: "k \<le> n \<Longrightarrow> a ! (n - k) = b ! (n - k)" for k
  proof (induction k)
    case 0
    show ?case using top by simp
  next
    case (Suc k)
    then have ih: "a ! (n - k) = b ! (n - k)" by simp
    have idx: "Suc (n - Suc k) = n - k" using Suc.prems by simp
    have "Suc (n - Suc k) < length a" using Suc.prems n by simp
    from gaps [OF this] show ?case using ih by (simp add: idx)
  qed
  show ?thesis
  proof (rule nth_equalityI [OF len])
    fix i assume "i < length a"
    then have "i \<le> n" using n by simp
    with down [of "n - i"] show "a ! i = b ! i" by simp
  qed
qed

text \<open>
  Claim C7. For every non-decreasing timeline the compressed timeline has the length of
  the input and is non-decreasing. The source has one threshold, \<open>MAX_GAP\<close>; the loop
  does the same for every threshold that is not negative.
\<close>

theorem timeline_zipped_length_sorted:
  assumes "sorted timeline"
  shows "length (timeline_zipped timeline) = length timeline \<and>
         sorted (timeline_zipped timeline) \<and>
         (\<forall>gap\<ge>0. length (zip_loop gap timeline) = length timeline \<and>
                   sorted (zip_loop gap timeline))"
proof -
  have "0 \<le> MAX_GAP" by (simp add: MAX_GAP_def AN_HOUR_total_seconds_def)
  then show ?thesis
    using assms by (simp add: timeline_zipped_def length_zip_loop sorted_zip_loop)
qed

theorem timeline_zipped_length_sorted_witness:
  "sorted [0, 100, 18100, 18200 :: real] \<and>
   timeline_zipped [0, 100, 18100, 18200] = [17280, 17380, 18100, 18200] \<and>
   length (timeline_zipped [0, 100, 18100, 18200]) = 4 \<and>
   sorted (timeline_zipped [0, 100, 18100, 18200]) \<and>
   (0 :: real) \<le> 50 \<and>
   sorted (zip_loop 50 [0, 100, 18100, 18200])"
proof -
  have s: "sorted [0, 100, 18100, 18200 :: real]" by simp
  have v: "timeline_zipped [0, 100, 18100, 18200] = [17280, 17380, 18100, 18200]"
    by (simp add: timeline_zipped_def zip_loop_def zip_step_def MAX_GAP_def
        AN_HOUR_total_seconds_def upt_rec)
  have g: "(0 :: real) \<le> 50" by simp
  from timeline_zipped_length_sorted [OF s] g
  have "sorted (zip_loop 50 [0, 100, 18100, 18200])" by blast
  then show ?thesis using timeline_zipped_length_sorted [OF s] s v by simp
qed

text \<open>
  Claim C8. Compression is idempotent: compressing a compressed timeline with the same
  threshold changes nothing, and after one pass no gap between neighbours exceeds the
  threshold.
\<close>

theorem timeline_zipped_idempotent:
  "timeline_zipped (timeline_zipped timeline) = timeline_zipped timeline \<and>
   (\<forall>i. Suc i < length timeline \<longrightarrow>
        timeline_zipped timeline ! Suc i - timeline_zipped timeline ! i \<le> MAX_GAP) \<and>
   (\<forall>gap. zip_loop gap (zip_loop gap timeline) = zip_loop gap timeline)"
proof -
  have "timeline_zipped timeline ! Suc i - timeline_zipped timeline ! i \<le> MAX_GAP"
    if "Suc i < length timeline" for i
    using gaps_zip_loop [OF that, of MAX_GAP] by (simp add: timeline_zipped_def)
  then show ?thesis by (simp add: timeline_zipped_def zip_loop_idem)
qed

theorem timeline_zipped_idempotent_witness:
  "timeline_zipped [0, 100, 18100, 18200] = [17280, 17380, 18100, 18200] \<and>
   timeline_zipped [17280, 17380, 18100, 18200] = [17280, 17380, 18100, 18200] \<and>
   (18100 :: real) - 17380 \<le> MAX_GAP"
proof -
  have v: "timeline_zipped [0, 100, 18100, 18200] = [17280, 17380, 18100, 18200]"
    by (simp add: timeline_zipped_def zip_loop_def zip_step_def MAX_GAP_def
        AN_HOUR_total_seconds_def upt_rec)
  have "Suc 1 < length [0, 100, 18100, 18200 :: real]" by simp
  with timeline_zipped_idempotent [of "[0, 100, 18100, 18200]"]
  have "timeline_zipped (timeline_zipped [0, 100, 18100, 18200]) = timeline_zipped [0, 100, 18100, 18200]"
    and "timeline_zipped [0, 100, 18100, 18200] ! Suc 1 - timeline_zipped [0, 100, 18100, 18200] ! 1 \<le> MAX_GAP"
    by blast+
  then show ?thesis using v by simp
qed

text \<open>
  Claim C9. A series \<open>xs @ ys\<close> whose only gap above the threshold of 0.2 hours is the
  one of 5 hours between \<open>xs\<close> and \<open>ys\<close>: every timestamp before the gap moves forward
  by 4.8 hours and every timestamp after it keeps its value.
\<close>

theorem timeline_zipped_one_gap:
  assumes xs_ne: "xs \<noteq> []" and ys_ne: "ys \<noteq> []"
    and big: "hd ys - last xs = hours_total_seconds 5"
    and xs_gaps: "\<forall>i. Suc i < length xs \<longrightarrow> xs ! Suc i - xs ! i \<le> MAX_GAP"
    and ys_gaps: "\<forall>i. Suc i < length ys \<longrightarrow> ys ! Suc i - ys ! i \<le> MAX_GAP"
  shows "MAX_GAP = hours_total_seconds 0.2 \<and>
         timeline_zipped (xs @ ys) = map (\<lambda>t. t + hours_total_seconds 4.8) xs @ ys"
proof -
  let ?f = "\<lambda>t::real. t + hours_total_seconds 4.8"
  let ?a = "zip_loop MAX_GAP (xs @ ys)"
  let ?b = "map ?f xs @ ys"
  have mg: "MAX_GAP = 720"
    by (simp add: MAX_GAP_def AN_HOUR_total_seconds_def)
  have big': "hd ys - last xs = 18000"
    using big by (simp add: hts_eval)
  have len: "length ?a = length ?b" by (simp add: length_zip_loop)
  have ne: "?a \<noteq> []" using xs_ne length_zip_loop [of MAX_GAP "xs @ ys"] by auto
  have lst: "last ?a = last ?b" using ys_ne by (simp add: last_zip_loop)
  have gaps: "?a ! Suc i - ?a ! i = ?b ! Suc i - ?b ! i" if "Suc i < length ?a" for i
  proof -
    from that have i: "Suc i < length (xs @ ys)" by (simp add: length_zip_loop)
    have a: "?a ! Suc i - ?a ! i = min ((xs @ ys) ! Suc i - (xs @ ys) ! i) MAX_GAP"
      by (rule gaps_zip_loop [OF i])
    consider (before) "Suc i < length xs" | (at) "Suc i = length xs" | (after) "length xs \<le> i"
      by linarith
    then show ?thesis
    proof cases
      case before
      then have "xs ! Suc i - xs ! i \<le> MAX_GAP" using xs_gaps by blast
      then show ?thesis using a before by (simp add: nth_append)
    next
      case at
      then have "length xs - 1 = i" by arith
      then have "last xs = xs ! i" using xs_ne by (simp add: last_conv_nth)
      moreover have "hd ys = ys ! 0" using ys_ne by (simp add: hd_conv_nth)
      ultimately have "ys ! 0 - xs ! i = 18000" using big' by simp
      then show ?thesis
        using a at
        by (simp add: nth_append mg hts_eval)
    next
      case after
      then have "Suc i - length xs = Suc (i - length xs)" by simp
      moreover from after i have "Suc (i - length xs) < length ys" by simp
      then have "ys ! Suc (i - length xs) - ys ! (i - length xs) \<le> MAX_GAP"
        using ys_gaps by blast
      ultimately show ?thesis using a after by (simp add: nth_append)
    qed
  qed
  have "?a = ?b" by (rule eq_from_gaps [OF len ne lst gaps])
  then show ?thesis
    by (simp add: timeline_zipped_def MAX_GAP_def AN_HOUR_total_seconds_def hts_eval)
qed

theorem timeline_zipped_one_gap_witness:
  "timeline_zipped ([0, 100] @ [18100, 18200]) = [17280, 17380] @ [18100, 18200]"
proof -
  have 1: "[0, 100 :: real] \<noteq> []" and 2: "[18100, 18200 :: real] \<noteq> []" by simp_all
  have 3: "hd [18100, 18200 :: real] - last [0, 100] = hours_total_seconds 5"
    by (simp add: hts_eval)
  have 4: "\<forall>i. Suc i < length [0, 100 :: real] \<longrightarrow> [0, 100 :: real] ! Suc i - [0, 100] ! i \<le> MAX_GAP"
    by (simp add: MAX_GAP_def AN_HOUR_total_seconds_def)
  have 5: "\<forall>i. Suc i < length [18100, 18200 :: real] \<longrightarrow>
             [18100, 18200 :: real] ! Suc i - [18100, 18200] ! i \<le> MAX_GAP"
    by (simp add: MAX_GAP_def AN_HOUR_total_seconds_def)
  from timeline_zipped_one_gap [OF 1 2 3 4 5]
  show ?thesis by (simp add: hts_eval)
qed

text \<open>
  Claim C10. Compression never changes the final timestamp, so in compressed mode the
  anchor \<open>now\<close> of \<open>format\<close> is the last raw timestamp.
\<close>

theorem timeline_zipped_last:
  assumes "timeline \<noteq> []"
  shows "last (timeline_zipped timeline) = last timeline \<and>
         (compress self \<and> env_timeline e = timeline \<and>
          env_timeline_zipped e = timeline_zipped timeline \<longrightarrow>
            timeline_local_now e self = Inr (timeline_zipped timeline, last timeline))"
proof -
  have l: "last (timeline_zipped timeline) = last timeline"
    using assms by (simp add: timeline_zipped_def last_zip_loop)
  have "timeline_zipped timeline \<noteq> []"
    using assms length_zip_loop [of MAX_GAP timeline] by (auto simp: timeline_zipped_def)
  then show ?thesis using l by (simp add: timeline_local_now_def index_last_def)
qed

theorem timeline_zipped_last_witness:
  "[0, 100, 18100, 18200 :: real] \<noteq> [] \<and>
   last (timeline_zipped [0, 100, 18100, 18200]) = 18200 \<and>
   timeline_local_now
     \<lparr>env_data_sheet = [], env_timeline = [0, 100, 18100, 18200],
      env_charge_data = [50, 49, 48, 47], env_current_charge = 47,
      env_timeline_zipped = timeline_zipped [0, 100, 18100, 18200], env_clock = 20000\<rparr>
     \<lparr>compress = True, relative = True, plot_range = (0, 0), self_timeline = [],
      self_charge_data = []\<rparr>
   = Inr (timeline_zipped [0, 100, 18100, 18200], 18200)"
proof -
  have ne: "[0, 100, 18100, 18200 :: real] \<noteq> []" by simp
  show ?thesis
    using timeline_zipped_last [OF ne,
        of "\<lparr>compress = True, relative = True, plot_range = (0, 0), self_timeline = [],
             self_charge_data = []\<rparr>"
           "\<lparr>env_data_sheet = [], env_timeline = [0, 100, 18100, 18200],
             env_charge_data = [50, 49, 48, 47], env_current_charge = 47,
             env_timeline_zipped = timeline_zipped [0, 100, 18100, 18200], env_clock = 20000\<rparr>"]
    by simp
qed

section \<open>Properties of the analysis\<close>

text \<open>
  The two \<open>all(\<dots>)\<close> tests compare neighbours only; by transitivity they say that the
  whole sequence is non-decreasing, respectively non-increasing.
\<close>

lemma adjacent_sorted_wrt:
  assumes "transp P"
  shows "list_all (\<lambda>(x, y). P x y) (zip xs (tl xs)) \<longleftrightarrow> sorted_wrt P xs"
proof (induction xs rule: induct_list012)
  case (3 x y zs)
  from sorted_wrt2 [OF assms, of x y zs] 3 show ?case by simp
qed simp_all

lemma nondecreasing_sorted: "nondecreasing xs \<longleftrightarrow> sorted xs"
proof -
  have "transp ((\<le>) :: real \<Rightarrow> real \<Rightarrow> bool)" by (auto simp: transp_def)
  from adjacent_sorted_wrt [OF this] show ?thesis by (simp add: nondecreasing_def)
qed

lemma nonincreasing_sorted: "nonincreasing xs \<longleftrightarrow> sorted_wrt (\<ge>) xs"
proof -
  have "transp ((\<ge>) :: real \<Rightarrow> real \<Rightarrow> bool)" by (auto simp: transp_def)
  from adjacent_sorted_wrt [OF this] show ?thesis by (simp add: nonincreasing_def)
qed

text \<open>
  Claim C5. \<open>analyze\<close> answers the placeholder (\<open>NoTrend\<close>) exactly when the window has
  fewer than three samples or its charges are neither non-decreasing nor
  non-increasing; a window of two points and the charges 10, 20, 15 are such windows.
\<close>

theorem analyze_NoTrend_iff:
  "analyze timeline charge_data data_sheet current_charge = Inr NoTrend \<longleftrightarrow>
     length timeline < 3 \<or> (\<not> sorted charge_data \<and> \<not> sorted_wrt (\<ge>) charge_data)"
  by (auto simp: analyze_def Let_def nondecreasing_sorted nonincreasing_sorted
      split: sum.splits)

theorem analyze_NoTrend_iff_witness:
  "analyze [1600000000, 1600003600] [50, 50] [[CInt 1600003600, CFloat 50, CStr ''discharging'']] 50
     = Inr NoTrend \<and>
   analyze [1600000000, 1600003600, 1600007200] [10, 20, 15]
     [[CInt 1600007200, CFloat 15, CStr ''discharging'']] 15 = Inr NoTrend \<and>
   analyze [1600000000, 1600003600, 1600007200] [10, 20, 30]
     [[CInt 1600007200, CFloat 30, CStr ''charging'']] 30 \<noteq> Inr NoTrend"
proof -
  have a: "length [1600000000, 1600003600 :: real] < 3" by simp
  have b: "\<not> sorted [10, 20, 15 :: real] \<and> \<not> sorted_wrt (\<ge>) [10, 20, 15 :: real]" by simp
  have c: "\<not> (length [1600000000, 1600003600, 1600007200 :: real] < 3 \<or>
      (\<not> sorted [10, 20, 30 :: real] \<and> \<not> sorted_wrt (\<ge>) [10, 20, 30 :: real]))" by simp
  show ?thesis
    using analyze_NoTrend_iff [of "[1600000000, 1600003600]" "[50, 50]"
            "[[CInt 1600003600, CFloat 50, CStr ''discharging'']]" 50]
          analyze_NoTrend_iff [of "[1600000000, 1600003600, 1600007200]" "[10, 20, 15]"
            "[[CInt 1600007200, CFloat 15, CStr ''discharging'']]" 15]
          analyze_NoTrend_iff [of "[1600000000, 1600003600, 1600007200]" "[10, 20, 30]"
            "[[CInt 1600007200, CFloat 30, CStr ''charging'']]" 30]
          a b c
    by blast
qed

text \<open>
  Claim C6, as stated, promises rate, life and full life for every monotonic window of
  at least three samples with a positive time range. On a flat window the rate is 0 and
  \<open>BATTERY_MAX_CHARGE / abs(rate)\<close> raises ZeroDivisionError.
\<close>

theorem analyze_flat_counterexample:
  "3 \<le> length [1600000000, 1600003600, 1600007200 :: real] \<and>
   sorted [50, 50, 50 :: real] \<and>
   hd [1600000000, 1600003600, 1600007200 :: real] < last [1600000000, 1600003600, 1600007200] \<and>
   analyze [1600000000, 1600003600, 1600007200] [50, 50, 50]
     [[CInt 1600007200, CFloat 50, CStr ''discharging'']] 50 = Inl ZeroDivisionError"
  by (simp add: analyze_def nondecreasing_def AN_HOUR_total_seconds_def)

text \<open>
  Claim C6, amended. For every monotonic window of at least three samples with a
  positive time range whose first and last charge differ (and a data sheet whose last
  row is not empty, from which the status is read), \<open>analyze\<close> answers
  rate = (last charge - first charge) / hours, life = \<open>BATTERY_MAX_CHARGE\<close> / |rate|
  and full life = 100 / |rate|; on the charges 10, 20, 30 taken one hour apart the rate
  is 10.
\<close>

theorem analyze_trend:
  assumes len: "3 \<le> length timeline" "length charge_data = length timeline"
    and mono: "sorted charge_data \<or> sorted_wrt (\<ge>) charge_data"
    and range: "hd timeline < last timeline"
    and change: "hd charge_data \<noteq> last charge_data"
    and sheet: "data_sheet \<noteq> []" "last data_sheet \<noteq> []"
  shows "analyze timeline charge_data data_sheet current_charge =
           Inr (Trend
                 ((last charge_data - hd charge_data) /
                    ((last timeline - hd timeline) / 3600))
                 (BATTERY_MAX_CHARGE /
                    \<bar>(last charge_data - hd charge_data) / ((last timeline - hd timeline) / 3600)\<bar>)
                 (100 /
                    \<bar>(last charge_data - hd charge_data) / ((last timeline - hd timeline) / 3600)\<bar>)
                 (remaining (last (last data_sheet)) current_charge
                    ((last charge_data - hd charge_data) / ((last timeline - hd timeline) / 3600)))) \<and>
         (\<forall>t0. analyze [t0, t0 + 3600, t0 + 7200] [10, 20, 30] data_sheet current_charge =
            Inr (Trend 10 (BATTERY_MAX_CHARGE / 10) 10
                  (remaining (last (last data_sheet)) current_charge 10)))"
proof -
  have m: "\<not> (\<not> nondecreasing charge_data \<and> \<not> nonincreasing charge_data)"
    using mono by (simp add: nondecreasing_sorted nonincreasing_sorted)
  have l: "\<not> length timeline \<le> 2" "charge_data \<noteq> []" using len by auto
  have r: "(last timeline - hd timeline) / AN_HOUR_total_seconds \<noteq> 0"
    using range by (simp add: AN_HOUR_total_seconds_def)
  have c: "last charge_data - hd charge_data \<noteq> 0" using change by simp
  have general: "analyze timeline charge_data data_sheet current_charge =
           Inr (Trend
                 ((last charge_data - hd charge_data) /
                    ((last timeline - hd timeline) / 3600))
                 (BATTERY_MAX_CHARGE /
                    \<bar>(last charge_data - hd charge_data) / ((last timeline - hd timeline) / 3600)\<bar>)
                 (100 /
                    \<bar>(last charge_data - hd charge_data) / ((last timeline - hd timeline) / 3600)\<bar>)
                 (remaining (last (last data_sheet)) current_charge
                    ((last charge_data - hd charge_data) / ((last timeline - hd timeline) / 3600))))"
    using m l r c sheet
    by (simp add: analyze_def Let_def index_last_def AN_HOUR_total_seconds_def)
  have example: "analyze [t0, t0 + 3600, t0 + 7200] [10, 20, 30] data_sheet current_charge =
            Inr (Trend 10 (BATTERY_MAX_CHARGE / 10) 10
                  (remaining (last (last data_sheet)) current_charge 10))" for t0
    using sheet
    by (simp add: analyze_def nondecreasing_def index_last_def AN_HOUR_total_seconds_def)
  show ?thesis using general example by blast
qed

theorem analyze_trend_witness:
  "analyze [1600000000, 1600003600, 1600007200] [10, 20, 30]
     [[CInt 1600007200, CFloat 30, CStr ''charging'']] 30
   = Inr (Trend 10 (BATTERY_MAX_CHARGE / 10) 10 (Some ((BATTERY_MAX_CHARGE - 30) / 10)))"
proof -
  have 1: "3 \<le> length [1600000000, 1600003600, 1600007200 :: real]"
    and 2: "length [10, 20, 30 :: real] = length [1600000000, 1600003600, 1600007200 :: real]"
    and 3: "sorted [10, 20, 30 :: real] \<or> sorted_wrt (\<ge>) [10, 20, 30 :: real]"
    and 4: "hd [1600000000, 1600003600, 1600007200 :: real] < last [1600000000, 1600003600, 1600007200]"
    and 5: "hd [10, 20, 30 :: real] \<noteq> last [10, 20, 30]"
    and 6: "[[CInt 1600007200, CFloat 30, CStr ''charging'']] \<noteq> []"
    and 7: "last [[CInt 1600007200, CFloat 30, CStr ''charging'']] \<noteq> []"
    by simp_all
  from analyze_trend [OF 1 2 3 4 5 6 7, of 30]
  show ?thesis by (simp add: remaining_def)
qed

text \<open>
  \<open>analyze\<close> takes the status from the last cell of the last row of the data sheet:
  whenever it answers a trend, the remaining time follows that cell.
\<close>

lemma analyze_left:
  assumes "analyze timeline charge_data data_sheet current_charge = Inr (Trend rate life full_life left)"
  shows "data_sheet \<noteq> [] \<and> last data_sheet \<noteq> [] \<and>
         left = (if last (last data_sheet) = CStr ''discharging''
                   then Some (current_charge / \<bar>rate\<bar>)
                 else if last (last data_sheet) = CStr ''charging''
                   then Some ((BATTERY_MAX_CHARGE - current_charge) / \<bar>rate\<bar>)
                 else None)"
  using assms
  by (auto simp: analyze_def Let_def index_last_def remaining_def split: if_splits sum.splits)

text \<open>
  A row converted at lines 72 to 77 is \<open>[int, float]\<close>, so the cell that \<open>analyze\<close>
  reads as the status is the charge, never a string: on every data sheet the conversion
  builds, a trend has no remaining time.
\<close>

lemma dec_float_is_float: "dec_float s = Inr c \<Longrightarrow> is_float c"
  by (auto simp: dec_float_def split: prod.splits if_splits option.splits)

lemma convert_line_shape:
  assumes "\<forall>s c. py_float s = Inr c \<longrightarrow> is_float c"
    and "convert_line py_int py_float line = Inr row"
  shows "\<exists>t c. row = [CInt t, c] \<and> is_float c"
  using assms by (auto simp: convert_line_def split: sum.splits)

lemma convert_lines_last_shape:
  assumes fl: "\<forall>s c. py_float s = Inr c \<longrightarrow> is_float c"
  shows "convert_lines py_int py_float lines = Inr rows \<Longrightarrow> rows \<noteq> [] \<Longrightarrow>
         \<exists>t c. last rows = [CInt t, c] \<and> is_float c"
proof (induction lines arbitrary: rows)
  case Nil
  then show ?case by simp
next
  case (Cons line rest)
  from Cons.prems(1) obtain row rows' where
    row: "convert_line py_int py_float line = Inr row" and
    rest: "convert_lines py_int py_float rest = Inr rows'" and
    rows: "rows = row # rows'"
    by (auto split: sum.splits)
  show ?case
  proof (cases "rows' = []")
    case True
    with rows convert_line_shape [OF fl row] show ?thesis by simp
  next
    case False
    with Cons.IH [OF rest False] rows show ?thesis by simp
  qed
qed

lemma analyze_converted_sheet:
  assumes fl: "\<forall>s c. py_float s = Inr c \<longrightarrow> is_float c"
    and sheet: "convert_lines py_int py_float lines = Inr data_sheet"
    and trend: "analyze timeline charge_data data_sheet current_charge
                  = Inr (Trend rate life full_life left)"
  shows "left = None"
proof -
  from analyze_left [OF trend] have ne: "data_sheet \<noteq> []"
    and left: "left = (if last (last data_sheet) = CStr ''discharging''
                   then Some (current_charge / \<bar>rate\<bar>)
                 else if last (last data_sheet) = CStr ''charging''
                   then Some ((BATTERY_MAX_CHARGE - current_charge) / \<bar>rate\<bar>)
                 else None)"
    by simp_all
  from convert_lines_last_shape [OF fl sheet ne] obtain t c where
    "last data_sheet = [CInt t, c]" "is_float c" by blast
  then have "last (last data_sheet) \<noteq> CStr ''discharging''"
    "last (last data_sheet) \<noteq> CStr ''charging''" by auto
  with left show ?thesis by simp
qed

text \<open>
  Claim C2 says that with every trend the remaining time is there exactly when the last
  sample's status is \<open>'discharging'\<close> or \<open>'charging'\<close>, current charge / |rate| when
  discharging. For a history of three discharging samples, 30, 20 and 10 percent taken
  one hour apart, the claim's remaining time is 10 / 10 = 1 hour; the rows converted
  from the file hold no status, and \<open>analyze\<close> on them answers a trend without
  remaining time.
\<close>

theorem analyze_converted_sheet_no_remaining:
  "convert_lines dec_int dec_float
     (map split_tab (splitlines
        (''1600000000'' @ [CHR 0x09] @ ''30.0'' @ [CHR 0x09] @ ''discharging'' @ [CHR 0x0A] @
         ''1600003600'' @ [CHR 0x09] @ ''20.0'' @ [CHR 0x09] @ ''discharging'' @ [CHR 0x0A] @
         ''1600007200'' @ [CHR 0x09] @ ''10.0'' @ [CHR 0x09] @ ''discharging'' @ [CHR 0x0A])))
     = Inr [[CInt 1600000000, CFloat 30], [CInt 1600003600, CFloat 20],
            [CInt 1600007200, CFloat 10]] \<and>
   analyze [1600000000, 1600003600, 1600007200] [30, 20, 10]
     [[CInt 1600000000, CFloat 30], [CInt 1600003600, CFloat 20], [CInt 1600007200, CFloat 10]]
     10
     = Inr (Trend (- 10) (17 / 2) 10 None)"
proof
  show "convert_lines dec_int dec_float
     (map split_tab (splitlines
        (''1600000000'' @ [CHR 0x09] @ ''30.0'' @ [CHR 0x09] @ ''discharging'' @ [CHR 0x0A] @
         ''1600003600'' @ [CHR 0x09] @ ''20.0'' @ [CHR 0x09] @ ''discharging'' @ [CHR 0x0A] @
         ''1600007200'' @ [CHR 0x09] @ ''10.0'' @ [CHR 0x09] @ ''discharging'' @ [CHR 0x0A])))
     = Inr [[CInt 1600000000, CFloat 30], [CInt 1600003600, CFloat 20],
            [CInt 1600007200, CFloat 10]]"
    by code_simp
  show "analyze [1600000000, 1600003600, 1600007200] [30, 20, 10]
     [[CInt 1600000000, CFloat 30], [CInt 1600003600, CFloat 20], [CInt 1600007200, CFloat 10]]
     10
     = Inr (Trend (- 10) (17 / 2) 10 None)"
    by (simp add: analyze_def nondecreasing_def nonincreasing_def AN_HOUR_total_seconds_def
        index_last_def remaining_def BATTERY_MAX_CHARGE_def)
qed

text \<open>
  Claim C3, as stated, promises the placeholder (\<open>NoTrend\<close>) and no error for every
  window of at least three samples whose first and last timestamps are equal. Three
  samples of one timestamp with rising charge pass the guard, \<open>t_range\<close> is zero and
  the division for \<open>rate\<close> raises ZeroDivisionError.
\<close>

theorem analyze_zero_range_counterexample:
  "3 \<le> length [1600000000, 1600000000, 1600000000 :: real] \<and>
   hd [1600000000, 1600000000, 1600000000 :: real] = last [1600000000, 1600000000, 1600000000] \<and>
   analyze [1600000000, 1600000000, 1600000000] [10, 20, 30]
     [[CInt 1600000000, CFloat 30, CStr ''charging'']] 30 = Inl ZeroDivisionError"
  by (simp add: analyze_def nondecreasing_def AN_HOUR_total_seconds_def)

text \<open>
  Claim C3, amended. For every window of at least three samples whose first and last
  timestamps are equal, \<open>analyze\<close> answers the placeholder exactly when the charges are
  neither non-decreasing nor non-increasing; a monotonic window is not caught by any
  guard, and the division by the zero time range raises ZeroDivisionError.
\<close>

theorem analyze_zero_range:
  assumes "3 \<le> length timeline" "length charge_data = length timeline"
    and "hd timeline = last timeline"
  shows "analyze timeline charge_data data_sheet current_charge =
           (if sorted charge_data \<or> sorted_wrt (\<ge>) charge_data
            then Inl ZeroDivisionError else Inr NoTrend)"
proof -
  have "\<not> length timeline \<le> 2" "charge_data \<noteq> []" using assms(1,2) by auto
  then show ?thesis
    using assms(3)
    by (simp add: analyze_def nondecreasing_sorted nonincreasing_sorted)
qed

theorem analyze_zero_range_witness:
  "analyze [1600000000, 1600000000, 1600000000] [10, 20, 15]
     [[CInt 1600000000, CFloat 15, CStr ''discharging'']] 15 = Inr NoTrend \<and>
   analyze [1600000000, 1600000000, 1600000000] [30, 20, 10]
     [[CInt 1600000000, CFloat 10, CStr ''discharging'']] 10 = Inl ZeroDivisionError"
proof -
  have n: "3 \<le> length [1600000000, 1600000000, 1600000000 :: real]"
    and up: "length [10, 20, 15 :: real] = length [1600000000, 1600000000, 1600000000 :: real]"
    and dn: "length [30, 20, 10 :: real] = length [1600000000, 1600000000, 1600000000 :: real]"
    and eq: "hd [1600000000, 1600000000, 1600000000 :: real]
              = last [1600000000, 1600000000, 1600000000]"
    by simp_all
  from analyze_zero_range [OF n up eq, of "[[CInt 1600000000, CFloat 15, CStr ''discharging'']]" 15]
       analyze_zero_range [OF n dn eq, of "[[CInt 1600000000, CFloat 10, CStr ''discharging'']]" 10]
  show ?thesis by simp
qed

section \<open>Properties of the window\<close>




section \<open>Properties of the data preparation\<close>

text \<open>
  Every converted row has the two elements \<open>int(line[0])\<close> and \<open>float(line[1])\<close>, so
  \<open>line[2]\<close> in the removal of unknown lines is out of range on the first row; and with
  no rows at all the unpacking of the columns fails. Whatever \<open>int\<close> and \<open>float\<close>
  answer, the preparation raises.
\<close>

lemma convert_line_length:
  "convert_line py_int py_float line = Inr row \<Longrightarrow> length row = 2"
  by (auto simp: convert_line_def split: sum.splits)

lemma convert_lines_hd_length:
  "convert_lines py_int py_float lines = Inr rows \<Longrightarrow> rows \<noteq> [] \<Longrightarrow> length (hd rows) = 2"
  by (cases lines) (auto split: sum.splits dest: convert_line_length)

lemma remove_unknown_short:
  "rows \<noteq> [] \<Longrightarrow> length (hd rows) = 2 \<Longrightarrow> remove_unknown rows = Inl IndexError"
  by (cases rows) (auto simp: index_def)

lemma prepare_data_with_never_returns:
  "\<exists>err. prepare_data_with py_int py_float data = Inl err"
proof (cases "convert_lines py_int py_float (map split_tab (splitlines data))")
  case (Inl err)
  then show ?thesis by (simp add: prepare_data_with_def)
next
  case (Inr rows)
  show ?thesis
  proof (cases "rows = []")
    case True
    with Inr show ?thesis by (simp add: prepare_data_with_def two_columns_def)
  next
    case False
    from remove_unknown_short [OF False convert_lines_hd_length [OF Inr False]] Inr
    show ?thesis by (simp add: prepare_data_with_def)
  qed
qed

text \<open>
  Claim C1 says that every well-formed input (tab-separated lines of at least three
  fields with numeric timestamp and charge) is loaded and that exactly the lines whose
  status is not \<open>'unknown'\<close> are kept. On the single well-formed line
  \<open>1600000000<TAB>50.0<TAB>discharging\<close> the preparation raises IndexError.
\<close>

theorem prepare_data_raises:
  "prepare_data (''1600000000'' @ [CHR 0x09] @ ''50.0'' @ [CHR 0x09] @ ''discharging'')
     = Inl IndexError"
  by code_simp

end
